theory Spec2Isabelle
  imports Complex_Main
begin

section \<open>Data model\<close>

text \<open>
  A location is the two-element list \<open>[x, y]\<close> of the source, kept as a pair of
  integers. The unit shorthands that \<open>on_game_start\<close> binds to module-wide names
  are the constructors of \<open>unit_type\<close>. The two Python exceptions the strategy code
  can raise are values of \<open>error\<close>: \<open>min\<close> of an empty list and \<open>list.index\<close> of
  an absent value raise \<open>ValueError\<close>, indexing out of range raises \<open>IndexError\<close>.
\<close>

type_synonym location = "int \<times> int"

datatype unit_type = WALL | SUPPORT | TURRET | SCOUT | DEMOLISHER | INTERCEPTOR

datatype edge = TOP_RIGHT | TOP_LEFT | BOTTOM_LEFT | BOTTOM_RIGHT

datatype error = ValueError | IndexError

text \<open>
  The requests a turn issues, in the order they are issued:
  \<open>attempt_spawn(unit_type, locations, num)\<close>, \<open>attempt_upgrade(locations)\<close> and
  \<open>attempt_remove(locations)\<close>. A call with a single location is the call with the
  one-element list, and \<open>num\<close> is 1 when the source leaves it out.
\<close>

datatype command =
    Spawn unit_type "location list" int
  | Upgrade "location list"
  | Remove "location list"

text \<open>
  The game-engine library (\<open>gamelib\<close>) is not part of the strategy file. Its
  game state is an abstract type \<open>'g\<close>, and the operations the strategy calls on it
  are the fields of a record: the queries read a state, the three request operations
  return the state they leave behind. \<open>get_resource g kind player\<close> has the
  resource kind first (\<open>SP = 0\<close>, \<open>MP = 1\<close>, as \<open>on_game_start\<close> sets them) and the
  player index second. \<open>turret_damage_i\<close> is
  \<open>gamelib.GameUnit(TURRET, game_state.config).damage_i\<close>. \<open>'u\<close> is the type of
  the unit handles \<open>get_attackers\<close> returns; the strategy only counts them.
\<close>

record ('g, 'u) gamelib =
  turn_number :: "'g \<Rightarrow> int"
  get_resource :: "'g \<Rightarrow> int \<Rightarrow> int \<Rightarrow> real"
  project_future_MP :: "'g \<Rightarrow> real"
  contains_stationary_unit :: "'g \<Rightarrow> location \<Rightarrow> bool"
  find_path_to_edge :: "'g \<Rightarrow> location \<Rightarrow> location list"
  get_attackers :: "'g \<Rightarrow> location \<Rightarrow> int \<Rightarrow> 'u list"
  get_edge_locations :: "'g \<Rightarrow> edge \<Rightarrow> location list"
  turret_damage_i :: "'g \<Rightarrow> int"
  attempt_spawn :: "'g \<Rightarrow> unit_type \<Rightarrow> location list \<Rightarrow> int \<Rightarrow> 'g"
  attempt_upgrade :: "'g \<Rightarrow> location list \<Rightarrow> 'g"
  attempt_remove :: "'g \<Rightarrow> location list \<Rightarrow> 'g"

section \<open>Python list primitives\<close>

text \<open>\<open>min(xs)\<close>: raises \<open>ValueError\<close> on the empty list.\<close>

fun py_min :: "int list \<Rightarrow> error + int" where
  "py_min [] = Inl ValueError"
| "py_min (x # xs) = Inr (fold min xs x)"

text \<open>\<open>xs.index(v)\<close>: the first position holding \<open>v\<close>, \<open>ValueError\<close> if there is none.\<close>

fun py_index :: "'a list \<Rightarrow> 'a \<Rightarrow> error + nat" where
  "py_index [] v = Inl ValueError"
| "py_index (x # xs) v =
     (if x = v then Inr 0
      else (case py_index xs v of Inl e \<Rightarrow> Inl e | Inr i \<Rightarrow> Inr (Suc i)))"

text \<open>\<open>xs[i]\<close> for an index that is not negative.\<close>

definition py_get :: "'a list \<Rightarrow> nat \<Rightarrow> error + 'a" where
  "py_get xs i = (if i < length xs then Inr (xs ! i) else Inl IndexError)"

text \<open>\<open>xs[-1]\<close>.\<close>

definition py_last :: "'a list \<Rightarrow> error + 'a" where
  "py_last xs = (if xs = [] then Inl IndexError else Inr (last xs))"

text \<open>\<open>xs[start:stop:step]\<close> for bounds that are not negative and a positive step.\<close>

definition py_slice :: "'a list \<Rightarrow> nat \<Rightarrow> nat \<Rightarrow> nat \<Rightarrow> 'a list" where
  "py_slice xs start stop step =
     map (\<lambda>i. xs ! i) (filter (\<lambda>i. (i - start) mod step = 0) [start..<min stop (length xs)])"

section \<open>Threat estimator\<close>

text \<open>
  \<open>compute_damage\<close>: the running total starts at 0 and each location of the path adds
  the number of attackers in range times the turret's damage.
\<close>

definition compute_damage :: "('g, 'u) gamelib \<Rightarrow> 'g \<Rightarrow> location \<Rightarrow> int \<Rightarrow> int" where
  "compute_damage gl game_state start_location player_index =
     fold (\<lambda>location damage.
             damage + int (length (get_attackers gl game_state location player_index))
                      * turret_damage_i gl game_state)
          (find_path_to_edge gl game_state start_location) 0"

text \<open>
  \<open>least_damage_spawn_location\<close>: the list of damages is built by position, its
  minimum is looked up with \<open>index\<close>, and that position is read from the options.
\<close>

definition least_damage_spawn_location ::
  "('g, 'u) gamelib \<Rightarrow> 'g \<Rightarrow> location list \<Rightarrow> error + location" where
  "least_damage_spawn_location gl game_state location_options =
     (let damages = map (\<lambda>i. compute_damage gl game_state (location_options ! i) 0)
                        [0..<length location_options]
      in case py_min damages of
           Inl e \<Rightarrow> Inl e
         | Inr m \<Rightarrow>
             (case py_index damages m of
                Inl e \<Rightarrow> Inl e
              | Inr idx \<Rightarrow> py_get location_options idx))"

text \<open>
  \<open>enemy_least_damage_target\<close>: the options are the two top edges, the damages are
  computed for player index 1, and the result is the last location of the path that
  starts at the chosen option, paired with that option's damage.
\<close>

definition enemy_least_damage_target ::
  "('g, 'u) gamelib \<Rightarrow> 'g \<Rightarrow> error + (location \<times> int)" where
  "enemy_least_damage_target gl game_state =
     (let enemy_options = get_edge_locations gl game_state TOP_LEFT
                          @ get_edge_locations gl game_state TOP_RIGHT;
          damages = map (\<lambda>i. compute_damage gl game_state (enemy_options ! i) 1)
                        [0..<length enemy_options]
      in case py_min damages of
           Inl e \<Rightarrow> Inl e
         | Inr m \<Rightarrow>
             (case py_index damages m of
                Inl e \<Rightarrow> Inl e
              | Inr idx \<Rightarrow>
                  (case py_get enemy_options idx of
                     Inl e \<Rightarrow> Inl e
                   | Inr opt \<Rightarrow>
                       (case py_last (find_path_to_edge gl game_state opt) of
                          Inl e \<Rightarrow> Inl e
                        | Inr target \<Rightarrow>
                            (case py_get damages idx of
                               Inl e \<Rightarrow> Inl e
                             | Inr d \<Rightarrow> Inr (target, d))))))"

section \<open>Turn planner\<close>

text \<open>
  A run of \<open>starter_strategy\<close> threads the game state through the requests and
  records each request it issues: the pair of the current game state and the commands
  so far. The planner never looks at what a request returns.
\<close>

type_synonym 'g run = "'g \<times> command list"

definition do_spawn ::
  "('g, 'u) gamelib \<Rightarrow> unit_type \<Rightarrow> location list \<Rightarrow> int \<Rightarrow> 'g run \<Rightarrow> 'g run" where
  "do_spawn gl u locations num s =
     (attempt_spawn gl (fst s) u locations num, snd s @ [Spawn u locations num])"

definition do_upgrade :: "('g, 'u) gamelib \<Rightarrow> location list \<Rightarrow> 'g run \<Rightarrow> 'g run" where
  "do_upgrade gl locations s =
     (attempt_upgrade gl (fst s) locations, snd s @ [Upgrade locations])"

definition do_remove :: "('g, 'u) gamelib \<Rightarrow> location list \<Rightarrow> 'g run \<Rightarrow> 'g run" where
  "do_remove gl locations s =
     (attempt_remove gl (fst s) locations, snd s @ [Remove locations])"

text \<open>The location lists of \<open>starter_strategy\<close>.\<close>

definition wall_locations :: "location list" where
  "wall_locations =
     [(0,13),(1,13),(2,13),(2,12),(3,12),(4,11),(7,10),(8,9),(9,10),(10,9),
      (17,9),(18,10),(19,9),(20,10),(23,11),(24,12),(25,12),(25,13),(26,13),(27,13)]"

definition left_tunnel :: "location list" where
  "left_tunnel = [(2,13),(2,12),(3,12),(6,10)]"

definition right_tunnel :: "location list" where
  "right_tunnel = [(24,12),(25,12),(25,13),(21,10)]"

definition reinforce_location :: "location list" where
  "reinforce_location = [(0,13),(27,13),(1,12),(26,12),(4,11),(23,11)]"

definition mid_location :: "location list" where
  "mid_location = map (\<lambda>i. (i, 9)) [11..16]"

definition left_location :: "location list" where
  "left_location = [(1,12),(3,13),(6,10),(4,12),(5,11)]"

definition right_location :: "location list" where
  "right_location = [(26,12),(24,13),(21,10),(23,12),(22,11)]"

definition scout_options :: "location list" where
  "scout_options = [(10,3),(11,2),(12,1),(13,0),(14,0),(15,1),(16,2),(17,3)]"

text \<open>
  \<open>starter_strategy\<close> is a straight line of steps; it is cut here at the places
  where it reads a resource. Lines 78 to 85: the walls of turn 0, then the turrets and
  their upgrade.
\<close>

definition baseline_defense :: "('g, 'u) gamelib \<Rightarrow> 'g run \<Rightarrow> 'g run" where
  "baseline_defense gl s0 =
     (let s1 = (if turn_number gl (fst s0) = 0 then do_spawn gl WALL wall_locations 1 s0 else s0);
          s2 = do_spawn gl TURRET [(2,11),(25,11)] 1 s1;
          s3 = do_upgrade gl [(2,11),(25,11)] s2
      in do_spawn gl TURRET [(9,9),(18,9)] 1 s3)"

text \<open>Lines 87 to 90: the walls that fill the tunnels.\<close>

definition tunnel_gating :: "('g, 'u) gamelib \<Rightarrow> 'g run \<Rightarrow> 'g run" where
  "tunnel_gating gl s =
     (if get_resource gl (fst s) 1 0 \<le> 11
      then do_spawn gl WALL (left_tunnel @ right_tunnel) 1 s
      else s)"

text \<open>Lines 101 to 105: one location of the reinforcement loop.\<close>

definition reinforce :: "('g, 'u) gamelib \<Rightarrow> location \<Rightarrow> 'g run \<Rightarrow> 'g run" where
  "reinforce gl x s =
     (if contains_stationary_unit gl (fst s) x
      then do_upgrade gl [x] s
      else do_spawn gl WALL [x] 1 s)"

text \<open>Lines 98 to 99 and 106 to 107: one round of the loops over the side locations.\<close>

definition side_walls :: "('g, 'u) gamelib \<Rightarrow> nat \<Rightarrow> 'g run \<Rightarrow> 'g run" where
  "side_walls gl i s = do_spawn gl WALL [left_location ! i, right_location ! i] 1 s"

text \<open>Lines 92 to 108.\<close>

definition reinforcement_pass :: "('g, 'u) gamelib \<Rightarrow> 'g run \<Rightarrow> 'g run" where
  "reinforcement_pass gl s0 =
     (let s1 = do_spawn gl WALL (py_slice mid_location 1 6 2) 1 s0;
          s2 = fold (side_walls gl) [0..<3] s1;
          s3 = do_upgrade gl [(9,9),(18,9)] s2;
          s4 = fold (reinforce gl) reinforce_location s3;
          s5 = fold (side_walls gl) [3..<5] s4
      in do_spawn gl WALL (py_slice mid_location 0 6 2) 1 s5)"

text \<open>Lines 111 to 113.\<close>

definition tunnel_release :: "('g, 'u) gamelib \<Rightarrow> 'g run \<Rightarrow> 'g run" where
  "tunnel_release gl s =
     (if project_future_MP gl (fst s) > 11 \<and> get_resource gl (fst s) 1 0 \<le> 11
      then do_remove gl right_tunnel (do_remove gl left_tunnel s)
      else s)"

text \<open>Lines 115 to 117.\<close>

definition offensive_push :: "('g, 'u) gamelib \<Rightarrow> 'g run \<Rightarrow> error + 'g run" where
  "offensive_push gl s =
     (if get_resource gl (fst s) 1 0 > 11
      then (case least_damage_spawn_location gl (fst s) scout_options of
              Inl e \<Rightarrow> Inl e
            | Inr start \<Rightarrow> Inr (do_spawn gl SCOUT [start] 100 s))
      else Inr s)"

text \<open>The states at which the three resource checks are made.\<close>

definition at_tunnel_gate :: "('g, 'u) gamelib \<Rightarrow> 'g \<Rightarrow> 'g run" where
  "at_tunnel_gate gl game_state = baseline_defense gl (game_state, [])"

definition at_tunnel_release :: "('g, 'u) gamelib \<Rightarrow> 'g \<Rightarrow> 'g run" where
  "at_tunnel_release gl game_state =
     reinforcement_pass gl (tunnel_gating gl (at_tunnel_gate gl game_state))"

definition at_offensive_push :: "('g, 'u) gamelib \<Rightarrow> 'g \<Rightarrow> 'g run" where
  "at_offensive_push gl game_state = tunnel_release gl (at_tunnel_release gl game_state)"

definition starter_strategy :: "('g, 'u) gamelib \<Rightarrow> 'g \<Rightarrow> error + 'g run" where
  "starter_strategy gl game_state = offensive_push gl (at_offensive_push gl game_state)"

text \<open>The two requests the tunnel steps are about.\<close>

definition tunnel_fill :: command where
  "tunnel_fill = Spawn WALL (left_tunnel @ right_tunnel) 1"

definition scout_push :: "location \<Rightarrow> command" where
  "scout_push start = Spawn SCOUT [start] 100"

section \<open>Breach tracker\<close>

text \<open>
  A breach event is the five-element list of the action frame; the tracker reads its
  first element, the location, and its fifth, the owner, an integer. The three
  elements between them are not read. The argument of \<open>on_action_frame\<close> here is
  the list \<open>state["events"]["breach"]\<close>, after the frame has been parsed. The
  strategy object keeps \<open>scored_on_locations\<close>; the two debug lines written for each
  recorded breach are left out.
\<close>

type_synonym ('a, 'b, 'c) breach = "location \<times> 'a \<times> 'b \<times> 'c \<times> int"

definition breach_location :: "('a, 'b, 'c) breach \<Rightarrow> location" where
  "breach_location breach = fst breach"

definition breach_owner :: "('a, 'b, 'c) breach \<Rightarrow> int" where
  "breach_owner breach = snd (snd (snd (snd breach)))"

record algo_strategy =
  scored_on_locations :: "location list"

definition on_game_start :: "algo_strategy \<Rightarrow> algo_strategy" where
  "on_game_start self = self\<lparr>scored_on_locations := []\<rparr>"

definition record_breach :: "('a, 'b, 'c) breach \<Rightarrow> algo_strategy \<Rightarrow> algo_strategy" where
  "record_breach breach self =
     (let location = breach_location breach;
          unit_owner_self = (if breach_owner breach = 1 then True else False)
      in if \<not> unit_owner_self
         then self\<lparr>scored_on_locations := scored_on_locations self @ [location]\<rparr>
         else self)"

definition on_action_frame :: "algo_strategy \<Rightarrow> ('a, 'b, 'c) breach list \<Rightarrow> algo_strategy" where
  "on_action_frame self breaches = fold record_breach breaches self"

section \<open>An example board\<close>

text \<open>
  A concrete game state and collaborator on which the definitions can be evaluated.
  The board keeps the turn number, the two resources of player 0, the projected
  mobility resource, the occupied locations, the path that starts at each location
  (no entry: the empty path), the number of attackers in range of a location for each
  player index, and the two top edges. Its collaborator declines every request, which
  the best-effort contract of the requests allows, so the board stays as it is.
\<close>

record board =
  board_turn :: int
  board_sp :: real
  board_mp :: real
  board_future_mp :: real
  board_units :: "location list"
  board_paths :: "(location \<times> location list) list"
  board_attackers :: "((location \<times> int) \<times> nat) list"
  board_top_left :: "location list"
  board_top_right :: "location list"
  board_damage :: int

definition board_lib :: "(board, unit_type) gamelib" where
  "board_lib =
     \<lparr> turn_number = board_turn,
       get_resource = (\<lambda>b kind player.
          if player = 0 then (if kind = 0 then board_sp b else if kind = 1 then board_mp b else 0)
          else 0),
       project_future_MP = board_future_mp,
       contains_stationary_unit = (\<lambda>b l. l \<in> set (board_units b)),
       find_path_to_edge = (\<lambda>b l. case map_of (board_paths b) l of None \<Rightarrow> [] | Some p \<Rightarrow> p),
       get_attackers = (\<lambda>b l player.
          case map_of (board_attackers b) (l, player) of
            None \<Rightarrow> [] | Some n \<Rightarrow> replicate n TURRET),
       get_edge_locations = (\<lambda>b e.
          if e = TOP_LEFT then board_top_left b
          else if e = TOP_RIGHT then board_top_right b else []),
       turret_damage_i = board_damage,
       attempt_spawn = (\<lambda>b u locations num. b),
       attempt_upgrade = (\<lambda>b locations. b),
       attempt_remove = (\<lambda>b locations. b) \<rparr>"

text \<open>
  The two top edges of the 28 by 28 arena, from the top corner outwards, and a board
  in the middle of a game: every top-edge location has a two-step path straight down,
  the two front turret locations have a path of their own, one turret covers
  \<open>(2,11)\<close> against player 0 and one covers \<open>(13,26)\<close> against player 1.
\<close>

definition arena_top_left :: "location list" where
  "arena_top_left = map (\<lambda>n. (13 - n, 27 - n)) [0..13]"

definition arena_top_right :: "location list" where
  "arena_top_right = map (\<lambda>n. (14 + n, 27 - n)) [0..13]"

definition example_board :: board where
  "example_board =
     \<lparr> board_turn = 3, board_sp = 12, board_mp = 5, board_future_mp = 8,
       board_units = [(0,13),(27,13)],
       board_paths = map (\<lambda>l. (l, [l, (fst l, snd l - 1)])) (arena_top_left @ arena_top_right)
                     @ [((2,11), [(2,11),(3,11)]), ((25,11), [(25,11),(24,11)])],
       board_attackers = [(((2,11),0), 1), (((13,26),1), 1)],
       board_top_left = arena_top_left,
       board_top_right = arena_top_right,
       board_damage = 2 \<rparr>"

section \<open>Notions used in the proofs about the turn plan\<close>

text \<open>
  \<open>extends_by P s s'\<close>: the run \<open>s'\<close> has the commands of \<open>s\<close> followed by
  commands that all satisfy \<open>P\<close>. The two predicates describe the requests of the
  baseline step and of the reinforcement pass.
\<close>

definition extends_by :: "(command \<Rightarrow> bool) \<Rightarrow> 'g run \<Rightarrow> 'g run \<Rightarrow> bool" where
  "extends_by P s s' = (\<exists>cs. snd s' = snd s @ cs \<and> list_all P cs)"

definition baseline_request :: "command \<Rightarrow> bool" where
  "baseline_request c =
     (c = Spawn WALL wall_locations 1 \<or> c = Spawn TURRET [(2,11),(25,11)] 1
      \<or> c = Upgrade [(2,11),(25,11)] \<or> c = Spawn TURRET [(9,9),(18,9)] 1)"

definition reinforcement_request :: "command \<Rightarrow> bool" where
  "reinforcement_request c =
     (case c of
        Spawn u locations num \<Rightarrow> u = WALL \<and> length locations \<le> 3
      | Upgrade locations \<Rightarrow> True
      | Remove locations \<Rightarrow> False)"

section \<open>The threat estimator\<close>

lemma map_by_position: "map (\<lambda>i. f (xs ! i)) [0..<length xs] = map f xs"
  by (rule nth_equalityI) simp_all

lemma py_min_Min: "xs \<noteq> [] \<Longrightarrow> py_min xs = Inr (Min (set xs))"
proof (cases xs)
  case Nil
  then show "xs \<noteq> [] \<Longrightarrow> ?thesis" by simp
next
  case (Cons a l)
  have "Min (set (a # l)) = fold min l a" by (rule Min.set_eq_fold)
  then show ?thesis unfolding Cons by (simp only: py_min.simps)
qed

lemma py_index_first:
  "v \<in> set xs \<Longrightarrow>
   \<exists>i. py_index xs v = Inr i \<and> i < length xs \<and> xs ! i = v \<and> (\<forall>j<i. xs ! j \<noteq> v)"
proof (induction xs)
  case Nil
  then show ?case by simp
next
  case (Cons x xs)
  show ?case
  proof (cases "x = v")
    case True
    then show ?thesis by simp
  next
    case False
    with Cons.prems have "v \<in> set xs" by simp
    from Cons.IH [OF this] obtain i where
      i: "py_index xs v = Inr i" "i < length xs" "xs ! i = v" "\<forall>j<i. xs ! j \<noteq> v"
      by blast
    have "\<forall>j<Suc i. (x # xs) ! j \<noteq> v"
      using False i(4) by (auto simp: nth_Cons split: nat.splits)
    with False i show ?thesis by simp
  qed
qed

lemma first_minimum:
  assumes "xs \<noteq> []"
  shows "\<exists>m idx. py_min (map f xs) = Inr m \<and> py_index (map f xs) m = Inr idx
           \<and> idx < length xs \<and> f (xs ! idx) = m
           \<and> (\<forall>j<length xs. m \<le> f (xs ! j)) \<and> (\<forall>j<idx. m < f (xs ! j))"
proof -
  let ?ds = "map f xs"
  let ?m = "Min (set ?ds)"
  from assms have ne: "?ds \<noteq> []" by simp
  have m: "py_min ?ds = Inr ?m" using ne by (rule py_min_Min)
  have "?m \<in> set ?ds" using ne by (intro Min_in) simp_all
  from py_index_first [OF this] obtain idx where
    idx: "py_index ?ds ?m = Inr idx" "idx < length ?ds" "?ds ! idx = ?m" "\<forall>j<idx. ?ds ! j \<noteq> ?m"
    by blast
  have le: "?m \<le> f (xs ! j)" if "j < length xs" for j
    using that by (intro Min_le) simp_all
  have lt: "?m < f (xs ! j)" if "j < idx" for j
  proof -
    from that idx(2) have j: "j < length xs" by simp
    from idx(4) that have "?ds ! j \<noteq> ?m" by blast
    with j have "f (xs ! j) \<noteq> ?m" by simp
    with le [OF j] show ?thesis by linarith
  qed
  from m idx le lt show ?thesis by auto
qed

lemma compute_damage_sum_aux:
  "fold (\<lambda>l d. d + g l) p a = a + sum_list (map g p)" for a :: int
  by (induction p arbitrary: a) simp_all

text \<open>
  Claim C3. For every start location and player index, \<open>compute_damage\<close> is the sum,
  over the locations of the path that \<open>find_path_to_edge\<close> returns, of the number of
  attackers in range of the location times the turret's damage value. It is 0 when the
  path is empty, and 0 when no location of the path has an attacker in range.
\<close>

theorem compute_damage_is_path_sum:
  "compute_damage gl game_state start_location player_index =
     (\<Sum>location \<leftarrow> find_path_to_edge gl game_state start_location.
        int (length (get_attackers gl game_state location player_index))
        * turret_damage_i gl game_state)
   \<and> (find_path_to_edge gl game_state start_location = []
        \<longrightarrow> compute_damage gl game_state start_location player_index = 0)
   \<and> ((\<forall>location \<in> set (find_path_to_edge gl game_state start_location).
          get_attackers gl game_state location player_index = [])
        \<longrightarrow> compute_damage gl game_state start_location player_index = 0)"
proof -
  have eq: "compute_damage gl game_state start_location player_index =
     (\<Sum>location \<leftarrow> find_path_to_edge gl game_state start_location.
        int (length (get_attackers gl game_state location player_index))
        * turret_damage_i gl game_state)"
    unfolding compute_damage_def by (simp add: compute_damage_sum_aux)
  have "(\<Sum>location \<leftarrow> p. int (length (get_attackers gl game_state location player_index))
        * turret_damage_i gl game_state) = 0"
    if "\<forall>location \<in> set p. get_attackers gl game_state location player_index = []" for p
    using that by (induction p) simp_all
  with eq show ?thesis by simp
qed

theorem compute_damage_is_path_sum_witness:
  "find_path_to_edge board_lib example_board (5,5) = []
   \<and> compute_damage board_lib example_board (5,5) 0 = 0
   \<and> map (\<lambda>location. get_attackers board_lib example_board location 0)
         (find_path_to_edge board_lib example_board (25,11)) = [[], []]
   \<and> compute_damage board_lib example_board (25,11) 0 = 0
   \<and> compute_damage board_lib example_board (2,11) 0 = 2"
proof -
  have p: "find_path_to_edge board_lib example_board (5,5) = []"
    by code_simp
  have m: "map (\<lambda>location. get_attackers board_lib example_board location 0)
             (find_path_to_edge board_lib example_board (25,11)) = [[], []]"
    by code_simp
  have a: "\<forall>location \<in> set (find_path_to_edge board_lib example_board (25,11)).
             get_attackers board_lib example_board location 0 = []"
    by code_simp
  have s: "(\<Sum>location \<leftarrow> find_path_to_edge board_lib example_board (2,11).
              int (length (get_attackers board_lib example_board location 0))
              * turret_damage_i board_lib example_board) = 2"
    by code_simp
  from compute_damage_is_path_sum [of board_lib example_board "(5,5)" 0] p
  have 1: "compute_damage board_lib example_board (5,5) 0 = 0" by blast
  from compute_damage_is_path_sum [of board_lib example_board "(25,11)" 0] a
  have 2: "compute_damage board_lib example_board (25,11) 0 = 0" by blast
  from compute_damage_is_path_sum [of board_lib example_board "(2,11)" 0] s
  have 3: "compute_damage board_lib example_board (2,11) 0 = 2" by simp
  from p m 1 2 3 show ?thesis by blast
qed

text \<open>
  Claim C8. When the turret's damage value is not negative, the damage that
  \<open>compute_damage\<close> returns is not negative, for every start location and player index.
\<close>

theorem compute_damage_nonneg:
  assumes "0 \<le> turret_damage_i gl game_state"
  shows "0 \<le> compute_damage gl game_state start_location player_index"
proof -
  have "0 \<le> a \<Longrightarrow> 0 \<le> fold (\<lambda>location damage.
             damage + int (length (get_attackers gl game_state location player_index))
                      * turret_damage_i gl game_state) p a" for p and a :: int
    using assms by (induction p arbitrary: a) simp_all
  then show ?thesis unfolding compute_damage_def by simp
qed

theorem compute_damage_nonneg_witness:
  "0 \<le> turret_damage_i board_lib example_board
   \<and> 0 \<le> compute_damage board_lib example_board (2,11) 0"
proof -
  have h: "0 \<le> turret_damage_i board_lib example_board" by code_simp
  from compute_damage_nonneg [OF h, of "(2,11)" 0] h show ?thesis by blast
qed

text \<open>
  Claim C2. On a list of options that is not empty, \<open>least_damage_spawn_location\<close>
  returns an element of the list whose damage is at most the damage of every option,
  and every option before it in the list has a strictly larger damage: among the
  options of least damage it is the first.
\<close>

theorem least_damage_spawn_location_first_min:
  assumes "location_options \<noteq> []"
  shows "\<exists>i<length location_options.
           least_damage_spawn_location gl game_state location_options
             = Inr (location_options ! i)
         \<and> location_options ! i \<in> set location_options
         \<and> (\<forall>j<length location_options.
               compute_damage gl game_state (location_options ! i) 0
                 \<le> compute_damage gl game_state (location_options ! j) 0)
         \<and> (\<forall>j<i. compute_damage gl game_state (location_options ! i) 0
                 < compute_damage gl game_state (location_options ! j) 0)"
proof -
  from first_minimum [OF assms, of "\<lambda>l. compute_damage gl game_state l 0"]
  obtain m idx where
    h: "py_min (map (\<lambda>l. compute_damage gl game_state l 0) location_options) = Inr m"
       "py_index (map (\<lambda>l. compute_damage gl game_state l 0) location_options) m = Inr idx"
       "idx < length location_options"
       "compute_damage gl game_state (location_options ! idx) 0 = m"
       "\<forall>j<length location_options. m \<le> compute_damage gl game_state (location_options ! j) 0"
       "\<forall>j<idx. m < compute_damage gl game_state (location_options ! j) 0"
    by blast
  have "least_damage_spawn_location gl game_state location_options
          = Inr (location_options ! idx)"
    unfolding least_damage_spawn_location_def
    using h(1-3) by (simp add: Let_def py_get_def
      map_by_position [of "\<lambda>l. compute_damage gl game_state l 0" location_options])
  with h show ?thesis by (intro exI [of _ idx]) simp
qed

theorem least_damage_spawn_location_first_min_witness:
  "[(2,11),(25,11)] \<noteq> ([] :: location list)
   \<and> (\<exists>i<length [(2,11),(25,11) :: location].
         least_damage_spawn_location board_lib example_board [(2,11),(25,11)]
           = Inr ([(2,11),(25,11)] ! i))
   \<and> least_damage_spawn_location board_lib example_board [(2,11),(25,11)] = Inr (25,11)"
proof -
  have ne: "[(2,11),(25,11)] \<noteq> ([] :: location list)" by simp
  have v: "least_damage_spawn_location board_lib example_board [(2,11),(25,11)] = Inr (25,11)"
    by code_simp
  from least_damage_spawn_location_first_min [OF ne, of board_lib example_board]
  have "\<exists>i<length [(2,11),(25,11) :: location].
         least_damage_spawn_location board_lib example_board [(2,11),(25,11)]
           = Inr ([(2,11),(25,11)] ! i)" by blast
  with ne v show ?thesis by blast
qed

text \<open>
  Claim C7. \<open>least_damage_spawn_location\<close> fails exactly when the list of options is
  empty, with the \<open>ValueError\<close> that \<open>min\<close> raises on an empty list (the empty
  candidate set condition); on a list that is not empty it returns a location, and it
  has no other failure.
\<close>

theorem least_damage_spawn_location_fails_iff_empty:
  "(least_damage_spawn_location gl game_state location_options = Inl ValueError)
     = (location_options = [])
   \<and> (location_options \<noteq> []
        \<longrightarrow> (\<exists>l. least_damage_spawn_location gl game_state location_options = Inr l))
   \<and> (\<forall>e. least_damage_spawn_location gl game_state location_options = Inl e
        \<longrightarrow> location_options = [])"
proof (cases "location_options = []")
  case True
  then show ?thesis by (simp add: least_damage_spawn_location_def)
next
  case False
  from first_minimum [OF False, of "\<lambda>l. compute_damage gl game_state l 0"]
  obtain m idx where
    h: "py_min (map (\<lambda>l. compute_damage gl game_state l 0) location_options) = Inr m"
       "py_index (map (\<lambda>l. compute_damage gl game_state l 0) location_options) m = Inr idx"
       "idx < length location_options"
    by blast
  have "least_damage_spawn_location gl game_state location_options
          = Inr (location_options ! idx)"
    unfolding least_damage_spawn_location_def
    using h by (simp add: Let_def py_get_def
      map_by_position [of "\<lambda>l. compute_damage gl game_state l 0" location_options])
  with False show ?thesis by simp
qed

theorem least_damage_spawn_location_fails_iff_empty_witness:
  "least_damage_spawn_location board_lib example_board [] = Inl ValueError
   \<and> scout_options \<noteq> []
   \<and> (\<exists>l. least_damage_spawn_location board_lib example_board scout_options = Inr l)"
proof -
  have ne: "scout_options \<noteq> []" by (simp add: scout_options_def)
  from least_damage_spawn_location_fails_iff_empty [of board_lib example_board "[]"]
  have 1: "least_damage_spawn_location board_lib example_board [] = Inl ValueError" by simp
  from least_damage_spawn_location_fails_iff_empty [of board_lib example_board scout_options] ne
  have 2: "\<exists>l. least_damage_spawn_location board_lib example_board scout_options = Inr l"
    by blast
  from 1 ne 2 show ?thesis by blast
qed

section \<open>The turn plan\<close>

lemma extends_by_refl: "extends_by P s s"
  by (simp add: extends_by_def)

lemma extends_by_trans: "extends_by P s s' \<Longrightarrow> extends_by P s' s'' \<Longrightarrow> extends_by P s s''"
  by (auto simp: extends_by_def)

lemma extends_by_mem:
  "extends_by P s s' \<Longrightarrow> \<not> P c \<Longrightarrow> (c \<in> set (snd s')) = (c \<in> set (snd s))"
  by (auto simp: extends_by_def list_all_iff)

lemma extends_by_do_spawn: "P (Spawn u l n) \<Longrightarrow> extends_by P s (do_spawn gl u l n s)"
  by (simp add: extends_by_def do_spawn_def)

lemma extends_by_do_upgrade: "P (Upgrade l) \<Longrightarrow> extends_by P s (do_upgrade gl l s)"
  by (simp add: extends_by_def do_upgrade_def)

lemma extends_by_fold:
  "(\<And>x s. extends_by P s (f x s)) \<Longrightarrow> extends_by P s (fold f xs s)"
proof (induction xs arbitrary: s)
  case Nil
  show ?case by (simp add: extends_by_refl)
next
  case (Cons x xs)
  have "extends_by P s (f x s)" by (rule Cons.prems)
  moreover have "extends_by P (f x s) (fold f xs (f x s))"
    by (rule Cons.IH) (rule Cons.prems)
  ultimately show ?case by (simp add: extends_by_trans)
qed

lemma baseline_defense_extends: "extends_by baseline_request s (baseline_defense gl s)"
  unfolding baseline_defense_def Let_def
  by (intro extends_by_trans [OF _ extends_by_do_spawn] extends_by_trans [OF _ extends_by_do_upgrade])
     (auto simp: baseline_request_def extends_by_refl intro: extends_by_do_spawn)

lemma mid_odd: "py_slice mid_location 1 6 2 = [(12,9),(14,9),(16,9)]"
  by code_simp

lemma mid_even: "py_slice mid_location 0 6 2 = [(11,9),(13,9),(15,9)]"
  by code_simp

lemma side_walls_extends: "extends_by reinforcement_request s (side_walls gl i s)"
  unfolding side_walls_def
  by (rule extends_by_do_spawn) (simp add: reinforcement_request_def)

lemma reinforce_extends: "extends_by reinforcement_request s (reinforce gl x s)"
  unfolding reinforce_def
  by (auto intro!: extends_by_do_spawn extends_by_do_upgrade simp: reinforcement_request_def)

lemma reinforcement_pass_extends:
  "extends_by reinforcement_request s (reinforcement_pass gl s)"
proof -
  let ?s1 = "do_spawn gl WALL (py_slice mid_location 1 6 2) 1 s"
  let ?s2 = "fold (side_walls gl) [0..<3] ?s1"
  let ?s3 = "do_upgrade gl [(9,9),(18,9)] ?s2"
  let ?s4 = "fold (reinforce gl) reinforce_location ?s3"
  let ?s5 = "fold (side_walls gl) [3..<5] ?s4"
  let ?s6 = "do_spawn gl WALL (py_slice mid_location 0 6 2) 1 ?s5"
  have 1: "extends_by reinforcement_request s ?s1"
    by (rule extends_by_do_spawn) (simp only: mid_odd, simp add: reinforcement_request_def)
  have 2: "extends_by reinforcement_request ?s1 ?s2"
    by (rule extends_by_fold) (rule side_walls_extends)
  have 3: "extends_by reinforcement_request ?s2 ?s3"
    by (rule extends_by_do_upgrade) (simp add: reinforcement_request_def)
  have 4: "extends_by reinforcement_request ?s3 ?s4"
    by (rule extends_by_fold) (rule reinforce_extends)
  have 5: "extends_by reinforcement_request ?s4 ?s5"
    by (rule extends_by_fold) (rule side_walls_extends)
  have 6: "extends_by reinforcement_request ?s5 ?s6"
    by (rule extends_by_do_spawn) (simp only: mid_even, simp add: reinforcement_request_def)
  have eq: "reinforcement_pass gl s = ?s6"
    unfolding reinforcement_pass_def Let_def by (rule refl)
  have "extends_by reinforcement_request s ?s6"
    by (rule extends_by_trans [OF extends_by_trans [OF extends_by_trans
          [OF extends_by_trans [OF extends_by_trans [OF 1 2] 3] 4] 5] 6])
  then show ?thesis by (simp only: eq)
qed

lemma tunnel_gating_plan:
  "snd (tunnel_gating gl s) =
     snd s @ (if get_resource gl (fst s) 1 0 \<le> 11 then [tunnel_fill] else [])"
  by (simp add: tunnel_gating_def tunnel_fill_def do_spawn_def)

lemma tunnel_release_plan:
  "snd (tunnel_release gl s) =
     snd s @ (if project_future_MP gl (fst s) > 11 \<and> get_resource gl (fst s) 1 0 \<le> 11
              then [Remove left_tunnel, Remove right_tunnel] else [])"
  by (simp add: tunnel_release_def do_remove_def)

lemma least_damage_spawn_location_chooses:
  assumes "location_options \<noteq> []"
  shows "\<exists>l \<in> set location_options.
           least_damage_spawn_location gl game_state location_options = Inr l"
proof -
  from first_minimum [OF assms, of "\<lambda>l. compute_damage gl game_state l 0"]
  obtain m idx where
    h: "py_min (map (\<lambda>l. compute_damage gl game_state l 0) location_options) = Inr m"
       "py_index (map (\<lambda>l. compute_damage gl game_state l 0) location_options) m = Inr idx"
       "idx < length location_options"
    by blast
  have "least_damage_spawn_location gl game_state location_options
          = Inr (location_options ! idx)"
    unfolding least_damage_spawn_location_def
    using h by (simp add: Let_def py_get_def
      map_by_position [of "\<lambda>l. compute_damage gl game_state l 0" location_options])
  with h(3) show ?thesis by simp
qed

lemma offensive_push_plan:
  "\<exists>start s'. start \<in> set scout_options
      \<and> least_damage_spawn_location gl (fst s) scout_options = Inr start
      \<and> offensive_push gl s = Inr s'
      \<and> snd s' = snd s @ (if get_resource gl (fst s) 1 0 > 11 then [scout_push start] else [])"
proof -
  have ne: "scout_options \<noteq> []" by (simp add: scout_options_def)
  from least_damage_spawn_location_chooses [OF ne, of gl "fst s"]
  obtain start where i: "start \<in> set scout_options"
    "least_damage_spawn_location gl (fst s) scout_options = Inr start"
    by blast
  show ?thesis
  proof (cases "get_resource gl (fst s) 1 0 > 11")
    case True
    with i show ?thesis
      by (intro exI [of _ start] exI [of _ "do_spawn gl SCOUT [start] 100 s"])
         (simp add: offensive_push_def scout_push_def do_spawn_def)
  next
    case False
    with i show ?thesis
      by (intro exI [of _ start] exI [of _ s]) (simp add: offensive_push_def)
  qed
qed

text \<open>
  Claim C1, as the code has it. The check of line 89 and the check of line 115 both
  read \<open>get_resource(1, 0)\<close>: the resource of kind 1 of player 0, which is the
  mobility resource (\<open>MP = 1\<close>), not the structure resource (\<open>SP = 0\<close>). Every run
  of \<open>starter_strategy\<close> returns a plan; the plan holds the request for the tunnel
  walls exactly when the mobility resource read at the tunnel gate is at most 11, and
  it holds a request for scouts exactly when the mobility resource read at the
  offensive step is above 11. In particular, when both reads give 12, the tunnel walls
  are not requested and scouts are.
\<close>

theorem tunnel_walls_iff_mobility_low:
  "\<exists>game_state' plan.
     starter_strategy gl game_state = Inr (game_state', plan)
     \<and> ((tunnel_fill \<in> set plan)
          = (get_resource gl (fst (at_tunnel_gate gl game_state)) 1 0 \<le> 11))
     \<and> ((\<exists>start. scout_push start \<in> set plan)
          = (get_resource gl (fst (at_offensive_push gl game_state)) 1 0 > 11))
     \<and> (get_resource gl (fst (at_tunnel_gate gl game_state)) 1 0 = 12
          \<and> get_resource gl (fst (at_offensive_push gl game_state)) 1 0 = 12
        \<longrightarrow> tunnel_fill \<notin> set plan \<and> (\<exists>start. scout_push start \<in> set plan))"
proof -
  let ?g = "at_tunnel_gate gl game_state"
  let ?t = "tunnel_gating gl ?g"
  let ?r = "at_tunnel_release gl game_state"
  let ?o = "at_offensive_push gl game_state"
  have nb: "\<not> baseline_request tunnel_fill"
    by (simp add: baseline_request_def tunnel_fill_def wall_locations_def
          left_tunnel_def right_tunnel_def)
  have nr: "\<not> reinforcement_request tunnel_fill"
    by (simp add: reinforcement_request_def tunnel_fill_def left_tunnel_def right_tunnel_def)
  have nbs: "\<not> baseline_request (scout_push start)" for start
    by (simp add: baseline_request_def scout_push_def)
  have nrs: "\<not> reinforcement_request (scout_push start)" for start
    by (simp add: reinforcement_request_def scout_push_def)
  have g_fill: "tunnel_fill \<notin> set (snd ?g)"
    by (simp add: at_tunnel_gate_def extends_by_mem [OF baseline_defense_extends nb])
  have g_scout: "scout_push start \<notin> set (snd ?g)" for start
    by (simp add: at_tunnel_gate_def extends_by_mem [OF baseline_defense_extends nbs])
  have t_fill: "(tunnel_fill \<in> set (snd ?t)) = (get_resource gl (fst ?g) 1 0 \<le> 11)"
    using g_fill by (simp add: tunnel_gating_plan)
  have t_scout: "scout_push start \<notin> set (snd ?t)" for start
    using g_scout [of start] by (simp add: tunnel_gating_plan tunnel_fill_def scout_push_def)
  have r_fill: "(tunnel_fill \<in> set (snd ?r)) = (get_resource gl (fst ?g) 1 0 \<le> 11)"
    using t_fill
    by (simp add: at_tunnel_release_def extends_by_mem [OF reinforcement_pass_extends nr])
  have r_scout: "scout_push start \<notin> set (snd ?r)" for start
    using t_scout [of start]
    by (simp add: at_tunnel_release_def extends_by_mem [OF reinforcement_pass_extends nrs])
  have o_fill: "(tunnel_fill \<in> set (snd ?o)) = (get_resource gl (fst ?g) 1 0 \<le> 11)"
    using r_fill by (simp add: at_offensive_push_def tunnel_release_plan tunnel_fill_def)
  have o_scout: "scout_push start \<notin> set (snd ?o)" for start
    using r_scout [of start] by (simp add: at_offensive_push_def tunnel_release_plan scout_push_def)
  from offensive_push_plan [of gl ?o] obtain start s' where
    p: "offensive_push gl ?o = Inr s'"
       "snd s' = snd ?o @ (if get_resource gl (fst ?o) 1 0 > 11 then [scout_push start] else [])"
    by blast
  have run: "starter_strategy gl game_state = Inr (fst s', snd s')"
    using p(1) by (simp add: starter_strategy_def)
  have fill: "(tunnel_fill \<in> set (snd s')) = (get_resource gl (fst ?g) 1 0 \<le> 11)"
    using o_fill by (simp add: p(2) tunnel_fill_def scout_push_def)
  have scout: "(\<exists>start. scout_push start \<in> set (snd s')) = (get_resource gl (fst ?o) 1 0 > 11)"
  proof (cases "get_resource gl (fst ?o) 1 0 > 11")
    case True
    then have "scout_push start \<in> set (snd s')" by (simp add: p(2))
    with True show ?thesis by blast
  next
    case False
    with o_scout show ?thesis by (simp add: p(2))
  qed
  from run fill scout show ?thesis
    by (intro exI [of _ "fst s'"] exI [of _ "snd s'"]) simp
qed

theorem tunnel_walls_iff_mobility_low_witness:
  "get_resource board_lib
     (fst (at_tunnel_gate board_lib (example_board\<lparr>board_mp := 12\<rparr>))) 1 0 = 12
   \<and> get_resource board_lib
     (fst (at_offensive_push board_lib (example_board\<lparr>board_mp := 12\<rparr>))) 1 0 = 12
   \<and> (\<exists>game_state' plan.
         starter_strategy board_lib (example_board\<lparr>board_mp := 12\<rparr>) = Inr (game_state', plan)
         \<and> tunnel_fill \<notin> set plan \<and> (\<exists>start. scout_push start \<in> set plan))"
proof -
  have 1: "get_resource board_lib
     (fst (at_tunnel_gate board_lib (example_board\<lparr>board_mp := 12\<rparr>))) 1 0 = 12"
    by code_simp
  have 2: "get_resource board_lib
     (fst (at_offensive_push board_lib (example_board\<lparr>board_mp := 12\<rparr>))) 1 0 = 12"
    by code_simp
  from tunnel_walls_iff_mobility_low [of board_lib "example_board\<lparr>board_mp := 12\<rparr>"] 1 2
  show ?thesis by auto
qed

text \<open>
  Claim C1 as it is worded, with the structure resource, fails. On the example board
  the structure resource is 12 and the mobility resource is 5: the plan of the turn
  requests the tunnel walls (its fourth request) and requests no scouts.
\<close>

theorem structure_resource_12_counterexample:
  "get_resource board_lib example_board 0 0 = 12
   \<and> get_resource board_lib example_board 1 0 = 5
   \<and> tunnel_fill = Spawn WALL [(2,13),(2,12),(3,12),(6,10),(24,12),(25,12),(25,13),(21,10)] 1
   \<and> map_sum id snd (starter_strategy board_lib example_board) =
       Inr [Spawn TURRET [(2,11),(25,11)] 1, Upgrade [(2,11),(25,11)],
        Spawn TURRET [(9,9),(18,9)] 1,
        Spawn WALL [(2,13),(2,12),(3,12),(6,10),(24,12),(25,12),(25,13),(21,10)] 1,
        Spawn WALL [(12,9),(14,9),(16,9)] 1,
        Spawn WALL [(1,12),(26,12)] 1, Spawn WALL [(3,13),(24,13)] 1,
        Spawn WALL [(6,10),(21,10)] 1, Upgrade [(9,9),(18,9)],
        Upgrade [(0,13)], Upgrade [(27,13)], Spawn WALL [(1,12)] 1,
        Spawn WALL [(26,12)] 1, Spawn WALL [(4,11)] 1, Spawn WALL [(23,11)] 1,
        Spawn WALL [(4,12),(23,12)] 1, Spawn WALL [(5,11),(22,11)] 1,
        Spawn WALL [(11,9),(13,9),(15,9)] 1]"
  by code_simp

text \<open>
  Claim C5, as the code has it. The check of line 111 compares the projected mobility
  resource with 11 and reads \<open>get_resource(1, 0)\<close>, the mobility resource. Every run
  of \<open>starter_strategy\<close> returns a plan; the plan holds the two removal requests for
  the left and right tunnel exactly when, at the tunnel release step, the projected
  mobility resource is above 11 and the current mobility resource is at most 11, and
  it holds no other removal request. In particular, with a mobility resource of 11 and
  a projected mobility resource of 15, the removal is requested.
\<close>

theorem tunnel_removal_iff_mobility:
  "\<exists>game_state' plan.
     starter_strategy gl game_state = Inr (game_state', plan)
     \<and> ((Remove left_tunnel \<in> set plan \<and> Remove right_tunnel \<in> set plan)
          = (project_future_MP gl (fst (at_tunnel_release gl game_state)) > 11
             \<and> get_resource gl (fst (at_tunnel_release gl game_state)) 1 0 \<le> 11))
     \<and> ((\<exists>locations. Remove locations \<in> set plan)
          = (project_future_MP gl (fst (at_tunnel_release gl game_state)) > 11
             \<and> get_resource gl (fst (at_tunnel_release gl game_state)) 1 0 \<le> 11))
     \<and> (get_resource gl (fst (at_tunnel_release gl game_state)) 1 0 = 11
          \<and> project_future_MP gl (fst (at_tunnel_release gl game_state)) = 15
        \<longrightarrow> Remove left_tunnel \<in> set plan \<and> Remove right_tunnel \<in> set plan)"
proof -
  let ?g = "at_tunnel_gate gl game_state"
  let ?t = "tunnel_gating gl ?g"
  let ?r = "at_tunnel_release gl game_state"
  let ?o = "at_offensive_push gl game_state"
  let ?c = "project_future_MP gl (fst ?r) > 11 \<and> get_resource gl (fst ?r) 1 0 \<le> 11"
  have nb: "\<not> baseline_request (Remove l)" for l
    by (simp add: baseline_request_def)
  have nr: "\<not> reinforcement_request (Remove l)" for l
    by (simp add: reinforcement_request_def)
  have g: "Remove l \<notin> set (snd ?g)" for l
    by (simp add: at_tunnel_gate_def extends_by_mem [OF baseline_defense_extends nb])
  have t: "Remove l \<notin> set (snd ?t)" for l
    using g [of l] by (simp add: tunnel_gating_plan tunnel_fill_def)
  have r: "Remove l \<notin> set (snd ?r)" for l
    using t [of l]
    by (simp add: at_tunnel_release_def extends_by_mem [OF reinforcement_pass_extends nr])
  have o: "(Remove l \<in> set (snd ?o)) = (?c \<and> (l = left_tunnel \<or> l = right_tunnel))" for l
    using r [of l] by (auto simp: at_offensive_push_def tunnel_release_plan)
  from offensive_push_plan [of gl ?o] obtain start s' where
    p: "offensive_push gl ?o = Inr s'"
       "snd s' = snd ?o @ (if get_resource gl (fst ?o) 1 0 > 11 then [scout_push start] else [])"
    by blast
  have run: "starter_strategy gl game_state = Inr (fst s', snd s')"
    using p(1) by (simp add: starter_strategy_def)
  have m: "(Remove l \<in> set (snd s')) = (?c \<and> (l = left_tunnel \<or> l = right_tunnel))" for l
    using o [of l] by (simp add: p(2) scout_push_def)
  have both: "(Remove left_tunnel \<in> set (snd s') \<and> Remove right_tunnel \<in> set (snd s')) = ?c"
    by (simp add: m)
  have some: "(\<exists>locations. Remove locations \<in> set (snd s')) = ?c"
    by (auto simp: m)
  from run both some show ?thesis
    by (intro exI [of _ "fst s'"] exI [of _ "snd s'"]) simp
qed

theorem tunnel_removal_iff_mobility_witness:
  "get_resource board_lib (fst (at_tunnel_release board_lib
       (example_board\<lparr>board_mp := 11, board_future_mp := 15\<rparr>))) 1 0 = 11
   \<and> project_future_MP board_lib (fst (at_tunnel_release board_lib
       (example_board\<lparr>board_mp := 11, board_future_mp := 15\<rparr>))) = 15
   \<and> (\<exists>game_state' plan.
         starter_strategy board_lib (example_board\<lparr>board_mp := 11, board_future_mp := 15\<rparr>)
           = Inr (game_state', plan)
         \<and> Remove left_tunnel \<in> set plan \<and> Remove right_tunnel \<in> set plan)"
proof -
  have 1: "get_resource board_lib (fst (at_tunnel_release board_lib
       (example_board\<lparr>board_mp := 11, board_future_mp := 15\<rparr>))) 1 0 = 11"
    by code_simp
  have 2: "project_future_MP board_lib (fst (at_tunnel_release board_lib
       (example_board\<lparr>board_mp := 11, board_future_mp := 15\<rparr>))) = 15"
    by code_simp
  from tunnel_removal_iff_mobility
         [of board_lib "example_board\<lparr>board_mp := 11, board_future_mp := 15\<rparr>"] 1 2
  show ?thesis by auto
qed

text \<open>
  Claim C5 as it is worded, with the structure resource, fails. With a structure
  resource of 11, a projected mobility resource of 15 and a mobility resource of 12,
  the plan of the turn holds no removal request; it ends with the request for scouts.
\<close>

theorem structure_11_projected_15_counterexample:
  "get_resource board_lib
     (example_board\<lparr>board_sp := 11, board_mp := 12, board_future_mp := 15\<rparr>) 0 0 = 11
   \<and> project_future_MP board_lib
     (example_board\<lparr>board_sp := 11, board_mp := 12, board_future_mp := 15\<rparr>) = 15
   \<and> get_resource board_lib
     (example_board\<lparr>board_sp := 11, board_mp := 12, board_future_mp := 15\<rparr>) 1 0 = 12
   \<and> map_sum id snd (starter_strategy board_lib
        (example_board\<lparr>board_sp := 11, board_mp := 12, board_future_mp := 15\<rparr>)) =
       Inr [Spawn TURRET [(2,11),(25,11)] 1, Upgrade [(2,11),(25,11)],
        Spawn TURRET [(9,9),(18,9)] 1,
        Spawn WALL [(12,9),(14,9),(16,9)] 1,
        Spawn WALL [(1,12),(26,12)] 1, Spawn WALL [(3,13),(24,13)] 1,
        Spawn WALL [(6,10),(21,10)] 1, Upgrade [(9,9),(18,9)],
        Upgrade [(0,13)], Upgrade [(27,13)], Spawn WALL [(1,12)] 1,
        Spawn WALL [(26,12)] 1, Spawn WALL [(4,11)] 1, Spawn WALL [(23,11)] 1,
        Spawn WALL [(4,12),(23,12)] 1, Spawn WALL [(5,11),(22,11)] 1,
        Spawn WALL [(11,9),(13,9),(15,9)] 1,
        Spawn SCOUT [(10,3)] 100]"
  by code_simp

section \<open>The target of the enemy\<close>

lemma enemy_least_damage_target_selects:
  assumes "enemy_options = get_edge_locations gl game_state TOP_LEFT
                           @ get_edge_locations gl game_state TOP_RIGHT"
      and "enemy_options \<noteq> []"
  shows "\<exists>i<length enemy_options.
           (\<forall>j<length enemy_options.
               compute_damage gl game_state (enemy_options ! i) 1
                 \<le> compute_damage gl game_state (enemy_options ! j) 1)
         \<and> (\<forall>j<i. compute_damage gl game_state (enemy_options ! i) 1
                 < compute_damage gl game_state (enemy_options ! j) 1)
         \<and> enemy_least_damage_target gl game_state =
             (case py_last (find_path_to_edge gl game_state (enemy_options ! i)) of
                Inl e \<Rightarrow> Inl e
              | Inr target \<Rightarrow>
                  Inr (target, compute_damage gl game_state (enemy_options ! i) 1))"
proof -
  let ?f = "\<lambda>l. compute_damage gl game_state l 1"
  from first_minimum [OF assms(2), of ?f]
  obtain m idx where
    h: "py_min (map ?f enemy_options) = Inr m"
       "py_index (map ?f enemy_options) m = Inr idx"
       "idx < length enemy_options"
       "?f (enemy_options ! idx) = m"
       "\<forall>j<length enemy_options. m \<le> ?f (enemy_options ! j)"
       "\<forall>j<idx. m < ?f (enemy_options ! j)"
    by blast
  have "enemy_least_damage_target gl game_state =
          (case py_last (find_path_to_edge gl game_state (enemy_options ! idx)) of
             Inl e \<Rightarrow> Inl e
           | Inr target \<Rightarrow> Inr (target, ?f (enemy_options ! idx)))"
    unfolding enemy_least_damage_target_def assms(1) [symmetric]
    using h(1-3)
    by (simp add: Let_def py_get_def map_by_position [of ?f enemy_options]
          split: sum.splits)
  with h show ?thesis by (intro exI [of _ idx]) simp
qed

text \<open>
  Claim C4, as the code has it. The options are the locations of the two top edges.
  When there is at least one, the function chooses the first option of least damage
  (for player index 1), and when the path from that option is not empty it returns the
  last location of that path, not the option itself, paired with the option's damage.
\<close>

theorem enemy_least_damage_target_path_end:
  assumes "enemy_options = get_edge_locations gl game_state TOP_LEFT
                           @ get_edge_locations gl game_state TOP_RIGHT"
      and "enemy_options \<noteq> []"
  shows "\<exists>i<length enemy_options.
           (\<forall>j<length enemy_options.
               compute_damage gl game_state (enemy_options ! i) 1
                 \<le> compute_damage gl game_state (enemy_options ! j) 1)
         \<and> (\<forall>j<i. compute_damage gl game_state (enemy_options ! i) 1
                 < compute_damage gl game_state (enemy_options ! j) 1)
         \<and> (find_path_to_edge gl game_state (enemy_options ! i) \<noteq> []
              \<longrightarrow> enemy_least_damage_target gl game_state =
                    Inr (last (find_path_to_edge gl game_state (enemy_options ! i)),
                         compute_damage gl game_state (enemy_options ! i) 1))"
proof -
  from enemy_least_damage_target_selects [OF assms] obtain i where
    i: "i < length enemy_options"
       "\<forall>j<length enemy_options.
               compute_damage gl game_state (enemy_options ! i) 1
                 \<le> compute_damage gl game_state (enemy_options ! j) 1"
       "\<forall>j<i. compute_damage gl game_state (enemy_options ! i) 1
                 < compute_damage gl game_state (enemy_options ! j) 1"
       "enemy_least_damage_target gl game_state =
             (case py_last (find_path_to_edge gl game_state (enemy_options ! i)) of
                Inl e \<Rightarrow> Inl e
              | Inr target \<Rightarrow>
                  Inr (target, compute_damage gl game_state (enemy_options ! i) 1))"
    by blast
  show ?thesis
    by (rule exI [of _ i]) (simp add: i py_last_def)
qed

theorem enemy_least_damage_target_path_end_witness:
  "arena_top_left @ arena_top_right
     = get_edge_locations board_lib example_board TOP_LEFT
       @ get_edge_locations board_lib example_board TOP_RIGHT
   \<and> arena_top_left @ arena_top_right \<noteq> []
   \<and> (\<exists>i<length (arena_top_left @ arena_top_right).
        find_path_to_edge board_lib example_board ((arena_top_left @ arena_top_right) ! i) \<noteq> []
        \<and> enemy_least_damage_target board_lib example_board =
            Inr (last (find_path_to_edge board_lib example_board
                         ((arena_top_left @ arena_top_right) ! i)),
                 compute_damage board_lib example_board
                         ((arena_top_left @ arena_top_right) ! i) 1))"
proof -
  have e: "arena_top_left @ arena_top_right
     = get_edge_locations board_lib example_board TOP_LEFT
       @ get_edge_locations board_lib example_board TOP_RIGHT"
    by code_simp
  have ne: "arena_top_left @ arena_top_right \<noteq> []"
    by code_simp
  have p: "\<forall>i<length (arena_top_left @ arena_top_right).
     find_path_to_edge board_lib example_board ((arena_top_left @ arena_top_right) ! i) \<noteq> []"
    by code_simp
  from enemy_least_damage_target_path_end [OF e ne] p e ne
  show ?thesis by blast
qed

text \<open>
  Claim C4 as it is worded fails. On the example board the first option of least
  damage is \<open>(12,26)\<close>: the option before it has damage 2 and it has damage 0. Its
  path ends at \<open>(12,25)\<close>, and that is the location returned; it is not an edge
  location at all.
\<close>

theorem enemy_least_damage_target_counterexample:
  "enemy_least_damage_target board_lib example_board = Inr ((12,25), 0)
   \<and> (12,25) \<notin> set (get_edge_locations board_lib example_board TOP_LEFT
                      @ get_edge_locations board_lib example_board TOP_RIGHT)
   \<and> take 2 (get_edge_locations board_lib example_board TOP_LEFT) = [(13,27), (12,26)]
   \<and> compute_damage board_lib example_board (13,27) 1 = 2
   \<and> compute_damage board_lib example_board (12,26) 1 = 0
   \<and> find_path_to_edge board_lib example_board (12,26) = [(12,26), (12,25)]"
  by code_simp

text \<open>
  Claim C9. With at least one option, \<open>enemy_least_damage_target\<close> fails with
  \<open>IndexError\<close> exactly when the path from the first option of least damage is empty,
  and it returns a pair exactly when that path is not empty.
\<close>

theorem enemy_least_damage_target_index_error:
  assumes "enemy_options = get_edge_locations gl game_state TOP_LEFT
                           @ get_edge_locations gl game_state TOP_RIGHT"
      and "enemy_options \<noteq> []"
  shows "\<exists>i<length enemy_options.
           (\<forall>j<length enemy_options.
               compute_damage gl game_state (enemy_options ! i) 1
                 \<le> compute_damage gl game_state (enemy_options ! j) 1)
         \<and> (\<forall>j<i. compute_damage gl game_state (enemy_options ! i) 1
                 < compute_damage gl game_state (enemy_options ! j) 1)
         \<and> ((enemy_least_damage_target gl game_state = Inl IndexError)
              = (find_path_to_edge gl game_state (enemy_options ! i) = []))
         \<and> ((\<exists>r. enemy_least_damage_target gl game_state = Inr r)
              = (find_path_to_edge gl game_state (enemy_options ! i) \<noteq> []))"
proof -
  from enemy_least_damage_target_selects [OF assms] obtain i where
    i: "i < length enemy_options"
       "\<forall>j<length enemy_options.
               compute_damage gl game_state (enemy_options ! i) 1
                 \<le> compute_damage gl game_state (enemy_options ! j) 1"
       "\<forall>j<i. compute_damage gl game_state (enemy_options ! i) 1
                 < compute_damage gl game_state (enemy_options ! j) 1"
       "enemy_least_damage_target gl game_state =
             (case py_last (find_path_to_edge gl game_state (enemy_options ! i)) of
                Inl e \<Rightarrow> Inl e
              | Inr target \<Rightarrow>
                  Inr (target, compute_damage gl game_state (enemy_options ! i) 1))"
    by blast
  show ?thesis
    by (rule exI [of _ i]) (simp add: i py_last_def)
qed

theorem enemy_least_damage_target_index_error_witness:
  "arena_top_left @ arena_top_right
     = get_edge_locations board_lib (example_board\<lparr>board_paths := []\<rparr>) TOP_LEFT
       @ get_edge_locations board_lib (example_board\<lparr>board_paths := []\<rparr>) TOP_RIGHT
   \<and> arena_top_left @ arena_top_right \<noteq> []
   \<and> enemy_least_damage_target board_lib (example_board\<lparr>board_paths := []\<rparr>) = Inl IndexError"
proof -
  have e: "arena_top_left @ arena_top_right
     = get_edge_locations board_lib (example_board\<lparr>board_paths := []\<rparr>) TOP_LEFT
       @ get_edge_locations board_lib (example_board\<lparr>board_paths := []\<rparr>) TOP_RIGHT"
    by code_simp
  have ne: "arena_top_left @ arena_top_right \<noteq> []"
    by code_simp
  have p: "find_path_to_edge board_lib (example_board\<lparr>board_paths := []\<rparr>) l = []" for l
    by (simp add: board_lib_def)
  from enemy_least_damage_target_index_error [OF e ne] p e ne
  show ?thesis by auto
qed

section \<open>The breach history\<close>

lemma record_breach_scored:
  "scored_on_locations (record_breach breach self) =
     scored_on_locations self
     @ (if breach_owner breach = 1 then [] else [breach_location breach])"
  by (simp add: record_breach_def Let_def)

lemma on_action_frame_scored:
  "scored_on_locations (on_action_frame self breaches) =
     scored_on_locations self
     @ map breach_location (filter (\<lambda>b. breach_owner b \<noteq> 1) breaches)"
  unfolding on_action_frame_def
  by (induction breaches arbitrary: self) (simp_all add: record_breach_scored)

lemma frames_scored:
  "scored_on_locations (fold (\<lambda>breaches self. on_action_frame self breaches) batches self) =
     scored_on_locations self
     @ map breach_location (filter (\<lambda>b. breach_owner b \<noteq> 1) (concat batches))"
  by (induction batches arbitrary: self) (simp_all add: on_action_frame_scored)

text \<open>
  Claim C6. A call of \<open>on_action_frame\<close> never shortens \<open>scored_on_locations\<close> and
  keeps its old entries in place at the front. After any sequence of calls the history
  is the old history followed, in arrival order, by the locations of the events whose
  owner is not 1; when every owner is 1 (the player) or 2 (the opponent) these are
  exactly the locations of the opponent's events.
\<close>

theorem breach_history_append_only:
  "length (scored_on_locations self)
     \<le> length (scored_on_locations (on_action_frame self breaches))
   \<and> take (length (scored_on_locations self))
        (scored_on_locations (on_action_frame self breaches)) = scored_on_locations self
   \<and> scored_on_locations (fold (\<lambda>breaches self. on_action_frame self breaches) batches self) =
       scored_on_locations self
       @ map breach_location (filter (\<lambda>b. breach_owner b \<noteq> 1) (concat batches))
   \<and> ((\<forall>b \<in> set (concat batches). breach_owner b = 1 \<or> breach_owner b = 2) \<longrightarrow>
        scored_on_locations (fold (\<lambda>breaches self. on_action_frame self breaches) batches self) =
          scored_on_locations self
          @ map breach_location (filter (\<lambda>b. breach_owner b = 2) (concat batches)))"
proof -
  have a: "length (scored_on_locations self)
     \<le> length (scored_on_locations (on_action_frame self breaches))"
    by (simp add: on_action_frame_scored)
  have b: "take (length (scored_on_locations self))
        (scored_on_locations (on_action_frame self breaches)) = scored_on_locations self"
    by (simp add: on_action_frame_scored)
  have c: "scored_on_locations (fold (\<lambda>breaches self. on_action_frame self breaches) batches self) =
       scored_on_locations self
       @ map breach_location (filter (\<lambda>b. breach_owner b \<noteq> 1) (concat batches))"
    by (rule frames_scored)
  have d: "scored_on_locations (fold (\<lambda>breaches self. on_action_frame self breaches) batches self) =
          scored_on_locations self
          @ map breach_location (filter (\<lambda>b. breach_owner b = 2) (concat batches))"
    if h: "\<forall>b \<in> set (concat batches). breach_owner b = 1 \<or> breach_owner b = 2"
  proof -
    have "filter (\<lambda>b. breach_owner b \<noteq> 1) (concat batches)
            = filter (\<lambda>b. breach_owner b = 2) (concat batches)"
      using h by (intro filter_cong) auto
    with c show ?thesis by (simp only:)
  qed
  from a b c d show ?thesis by blast
qed

theorem breach_history_append_only_witness:
  "map breach_owner (concat [[((5,7), (), (), (), 2)], [((6,7), (), (), (), 1 :: int)]])
     = [2, 1]
   \<and> scored_on_locations
        (fold (\<lambda>breaches self. on_action_frame self breaches)
           [[((5,7), (), (), (), 2)], [((6,7), (), (), (), 1)]]
           (on_game_start \<lparr>scored_on_locations = []\<rparr>)) = [(5,7)]"
proof -
  have m: "map breach_owner (concat [[((5,7), (), (), (), 2)], [((6,7), (), (), (), 1 :: int)]])
     = [2, 1]"
    by (simp add: breach_owner_def)
  have h: "\<forall>b \<in> set (concat [[((5,7), (), (), (), 2)], [((6,7), (), (), (), 1 :: int)]]).
      breach_owner b = 1 \<or> breach_owner b = 2"
    by (simp add: breach_owner_def)
  from breach_history_append_only
         [of "on_game_start \<lparr>scored_on_locations = []\<rparr>" "[]"
             "[[((5,7), (), (), (), 2)], [((6,7), (), (), (), 1)]]"] h
  have "scored_on_locations
        (fold (\<lambda>breaches self. on_action_frame self breaches)
           [[((5,7), (), (), (), 2)], [((6,7), (), (), (), 1)]]
           (on_game_start \<lparr>scored_on_locations = []\<rparr>)) = [(5,7)]"
    by (simp add: on_game_start_def breach_owner_def breach_location_def)
  with m show ?thesis by blast
qed

text \<open>
  Claim C10. An event is left out only when its owner equals 1: the last event of a
  batch adds nothing to the history when its owner is 1, and adds its location at the
  end for every other owner value, 2 or not.
\<close>

theorem on_action_frame_owner_test:
  "scored_on_locations (on_action_frame self (breaches @ [breach])) =
     (if breach_owner breach = 1
      then scored_on_locations (on_action_frame self breaches)
      else scored_on_locations (on_action_frame self breaches) @ [breach_location breach])"
  by (simp add: on_action_frame_scored)

theorem on_action_frame_owner_test_witness:
  "scored_on_locations
     (on_action_frame \<lparr>scored_on_locations = [(5,7)]\<rparr> ([] @ [((8,7), (), (), (), 3)]))
     = [(5,7), (8,7)]
   \<and> scored_on_locations
     (on_action_frame \<lparr>scored_on_locations = [(5,7)]\<rparr> ([] @ [((6,7), (), (), (), 1)]))
     = [(5,7)]
   \<and> scored_on_locations
     (on_action_frame \<lparr>scored_on_locations = [(5,7)]\<rparr> ([] @ [((9,7), (), (), (), 2)]))
     = [(5,7), (9,7)]"
  using on_action_frame_owner_test [of "\<lparr>scored_on_locations = [(5,7)]\<rparr>" "[]" "((8,7), (), (), (), 3)"]
        on_action_frame_owner_test [of "\<lparr>scored_on_locations = [(5,7)]\<rparr>" "[]" "((6,7), (), (), (), 1)"]
        on_action_frame_owner_test [of "\<lparr>scored_on_locations = [(5,7)]\<rparr>" "[]" "((9,7), (), (), (), 2)"]
  by (simp add: on_action_frame_def breach_owner_def breach_location_def)

end
